theory Spec2Isabelle
  imports Main "HOL-Library.Multiset"
begin

section \<open>Data model of the package listing views\<close>

text \<open>
  The views of \<^verbatim>\<open>api/cyberstorm/views/packages.py\<close> query \<^verbatim>\<open>Package\<close> rows and reach
  the rows of \<^verbatim>\<open>PackageListing\<close> through the reverse relation \<^verbatim>\<open>community_listings\<close>:
  a package has one listing for each community it is listed in. Only the columns the
  views read are kept. Primary keys and category ids are integers, timestamps are
  integers (microseconds), strings are lists of bytes.
\<close>

datatype PackageListingReviewStatus = unreviewed | approved | rejected

record PackageListing =
  community_pk :: int
  review_status :: PackageListingReviewStatus
  has_nsfw_content :: bool
  categories :: "int list"

record Package =
  pk :: int
  name :: string
  owner_name :: string
  latest_description :: string
  is_deprecated :: bool
  is_pinned :: bool
  date_created :: int
  date_updated :: int
  download_count :: int
  rating_count :: int
  is_active :: bool
  community_listings :: "PackageListing list"

text \<open>
  A \<^verbatim>\<open>QuerySet[Package]\<close> is the list of the rows it selects. \<^verbatim>\<open>download_count\<close>
  and \<^verbatim>\<open>rating_count\<close> are the two columns that \<^verbatim>\<open>_annotate_queryset\<close> adds
  (the sum of the downloads of the package's versions, the number of its ratings).
\<close>

type_synonym QuerySet = "Package list"

section \<open>Strings\<close>

text \<open>
  \<^verbatim>\<open>str.split(" ")\<close> cuts at every single space and keeps the empty pieces;
  the list comprehension of \<^verbatim>\<open>filter_by_query\<close> then drops them.
\<close>

fun split_on :: "char \<Rightarrow> string \<Rightarrow> string list" where
  "split_on sep [] = [[]]"
| "split_on sep (c # cs) =
     (if c = sep then [] # split_on sep cs
      else (case split_on sep cs of
              [] \<Rightarrow> [[c]]
            | w # ws \<Rightarrow> (c # w) # ws))"

text \<open>
  The lookup \<^verbatim>\<open>icontains\<close>: the pattern occurs in the value as a contiguous
  substring, letter case ignored. Case folding is the one of ASCII letters.
\<close>

definition lower_char :: "char \<Rightarrow> char" where
  "lower_char c =
     (let n = (of_char c :: nat) in if 65 \<le> n \<and> n \<le> 90 then char_of (n + 32) else c)"

definition lower :: "string \<Rightarrow> string" where
  "lower s = map lower_char s"

fun startswith :: "string \<Rightarrow> string \<Rightarrow> bool" where
  "startswith s [] = True"
| "startswith [] (p # ps) = False"
| "startswith (c # cs) (p # ps) = (c = p \<and> startswith cs ps)"

fun contains :: "string \<Rightarrow> string \<Rightarrow> bool" where
  "contains [] pat = (pat = [])"
| "contains (c # cs) pat = (startswith (c # cs) pat \<or> contains cs pat)"

definition icontains :: "string \<Rightarrow> string \<Rightarrow> bool" where
  "icontains v pat = contains (lower v) (lower pat)"

section \<open>Q objects and exclude\<close>

text \<open>
  The lookups the views use. A lookup through \<^verbatim>\<open>community_listings\<close> crosses a
  to-many relation; every such lookup of the file stands under a negation
  (\<^verbatim>\<open>exclude(...)\<close> or \<^verbatim>\<open>exclude(~Q(...))\<close>), where Django compiles it to a subquery:
  the lookup holds of a package when one of its listings satisfies it.
\<close>

datatype Lookup =
    name__icontains string
  | owner__name__icontains string
  | latest__description__icontains string
  | is_deprecated_eq bool
  | community_listings__has_nsfw_content bool
  | community_listings__categories__id__in "int list"
  | community_listings__review_status__in "PackageListingReviewStatus list"
  | community_listings__community__pk int

fun lookup_holds :: "Lookup \<Rightarrow> Package \<Rightarrow> bool" where
  "lookup_holds (name__icontains s) p = icontains (name p) s"
| "lookup_holds (owner__name__icontains s) p = icontains (owner_name p) s"
| "lookup_holds (latest__description__icontains s) p = icontains (latest_description p) s"
| "lookup_holds (is_deprecated_eq b) p = (is_deprecated p = b)"
| "lookup_holds (community_listings__has_nsfw_content b) p =
     list_ex (\<lambda>l. has_nsfw_content l = b) (community_listings p)"
| "lookup_holds (community_listings__categories__id__in ids) p =
     list_ex (\<lambda>l. list_ex (\<lambda>c. c \<in> set ids) (categories l)) (community_listings p)"
| "lookup_holds (community_listings__review_status__in sts) p =
     list_ex (\<lambda>l. review_status l \<in> set sts) (community_listings p)"
| "lookup_holds (community_listings__community__pk k) p =
     list_ex (\<lambda>l. community_pk l = k) (community_listings p)"

text \<open>
  A \<^verbatim>\<open>Q\<close> object is a conjunction of children, possibly negated; a child is a lookup
  or another \<^verbatim>\<open>Q\<close>. \<^verbatim>\<open>Q()\<close> is the empty conjunction.
\<close>

datatype Q = Leaf Lookup | Node bool "Q list"

abbreviation Q_empty :: Q where
  "Q_empty \<equiv> Node False []"

fun Q_holds :: "Q \<Rightarrow> Package \<Rightarrow> bool" where
  "Q_holds (Leaf l) p = lookup_holds l p"
| "Q_holds (Node negated cs) p = (list_all (\<lambda>c. Q_holds c p) cs \<noteq> negated)"

text \<open>
  \<^verbatim>\<open>Q(**{lookup: value})\<close>, \<^verbatim>\<open>~q\<close> and \<^verbatim>\<open>q1 & q2\<close>. Adding a node that is not
  negated to a conjunction splices its children in; \<^verbatim>\<open>&\<close> with an empty operand
  gives the other operand back. (Django also leaves out a child that the conjunction
  already holds; a conjunction says the same with the child once or twice, and the
  child is kept here.)
\<close>

definition Q_kw :: "Lookup \<Rightarrow> Q" where
  "Q_kw l = Node False [Leaf l]"

fun squash :: "Q \<Rightarrow> Q list" where
  "squash (Node False cs) = cs"
| "squash q = [q]"

fun is_empty_Q :: "Q \<Rightarrow> bool" where
  "is_empty_Q (Node negated []) = True"
| "is_empty_Q q = False"

definition Q_invert :: "Q \<Rightarrow> Q" where
  "Q_invert q = Node True (squash q)"

definition Q_and :: "Q \<Rightarrow> Q \<Rightarrow> Q" where
  "Q_and q1 q2 =
     (if is_empty_Q q2 then q1
      else if is_empty_Q q1 then q2
      else Node False (squash q1 @ squash q2))"

text \<open>
  \<^verbatim>\<open>queryset.exclude(q)\<close> keeps the rows on which \<^verbatim>\<open>~q\<close> holds. Django leaves an
  empty \<^verbatim>\<open>Q\<close> out of the WHERE clause, so excluding \<^verbatim>\<open>Q()\<close> drops nothing.
\<close>

definition exclude :: "Q \<Rightarrow> QuerySet \<Rightarrow> QuerySet" where
  "exclude q qs = (if is_empty_Q q then qs else filter (Q_holds (Q_invert q)) qs)"

text \<open>\<^verbatim>\<open>queryset.distinct()\<close> removes repeated rows.\<close>

definition distinct_rows :: "QuerySet \<Rightarrow> QuerySet" where
  "distinct_rows qs = remdups qs"

section \<open>The filters of \<^verbatim>\<open>packages.py\<close>\<close>

definition filter_deprecated :: "bool \<Rightarrow> QuerySet \<Rightarrow> QuerySet" where
  "filter_deprecated show_deprecated queryset =
     (if show_deprecated then queryset
      else exclude (Q_kw (is_deprecated_eq True)) queryset)"

definition filter_nsfw :: "bool \<Rightarrow> QuerySet \<Rightarrow> QuerySet" where
  "filter_nsfw show_nsfw queryset =
     (if show_nsfw then queryset
      else exclude (Q_kw (community_listings__has_nsfw_content True)) queryset)"

definition filter_in_categories :: "int list \<Rightarrow> QuerySet \<Rightarrow> QuerySet" where
  "filter_in_categories category_ids queryset =
     (if category_ids = [] then queryset
      else exclude (Q_invert (Q_kw (community_listings__categories__id__in category_ids)))
             queryset)"

definition filter_not_in_categories :: "int list \<Rightarrow> QuerySet \<Rightarrow> QuerySet" where
  "filter_not_in_categories category_ids queryset =
     (if category_ids = [] then queryset
      else exclude (Q_kw (community_listings__categories__id__in category_ids)) queryset)"

text \<open>
  The table of \<^verbatim>\<open>PackageListingSection\<close> rows, by uuid; \<^verbatim>\<open>.get(uuid=...)\<close> on a uuid
  with no row raises \<^verbatim>\<open>DoesNotExist\<close>, which the function catches. A uuid is held as
  its string, as the signature of \<^verbatim>\<open>filter_by_section\<close> has it.
\<close>

record PackageListingSection =
  require_categories :: "int list"
  exclude_categories :: "int list"

type_synonym Sections = "string \<rightharpoonup> PackageListingSection"

definition filter_by_section :: "Sections \<Rightarrow> string option \<Rightarrow> QuerySet \<Rightarrow> QuerySet" where
  "filter_by_section sections section_uuid queryset =
     (case section_uuid of
        None \<Rightarrow> queryset
      | Some u \<Rightarrow>
          if u = [] then queryset
          else
            let (required, excluded) =
                  (case sections u of
                     None \<Rightarrow> ([], [])
                   | Some section \<Rightarrow> (require_categories section, exclude_categories section))
            in filter_not_in_categories excluded (filter_in_categories required queryset))"

definition search_fields :: "(string \<Rightarrow> Lookup) list" where
  "search_fields = [name__icontains, owner__name__icontains, latest__description__icontains]"

definition query_parts :: "string \<Rightarrow> string list" where
  "query_parts query = filter (\<lambda>x. x \<noteq> []) (split_on CHR '' '' query)"

definition build_icontains_query :: "string list \<Rightarrow> Q" where
  "build_icontains_query parts =
     fold (\<lambda>part q. fold (\<lambda>field q'. Q_and q' (Q_invert (Q_kw (field part)))) search_fields q)
       parts Q_empty"

definition filter_by_query :: "string option \<Rightarrow> QuerySet \<Rightarrow> QuerySet" where
  "filter_by_query query queryset =
     (case query of
        None \<Rightarrow> queryset
      | Some s \<Rightarrow>
          if s = [] then queryset
          else distinct_rows (exclude (build_icontains_query (query_parts s)) queryset))"

definition filter_by_review_status :: "bool \<Rightarrow> QuerySet \<Rightarrow> QuerySet" where
  "filter_by_review_status require_approval queryset =
     (let review_statuses = [approved] @ (if \<not> require_approval then [unreviewed] else [])
      in exclude (Q_invert (Q_kw (community_listings__review_status__in review_statuses)))
           queryset)"

section \<open>Ordering\<close>

text \<open>
  An argument of \<^verbatim>\<open>order_by\<close> is a column name, with a leading \<^verbatim>\<open>-\<close> for descending
  order. Booleans order as \<^verbatim>\<open>False < True\<close>. \<^verbatim>\<open>order_by\<close> sorts the rows by its
  arguments, the first one most significant.
\<close>

datatype Column =
    col_is_pinned | col_is_deprecated | col_date_updated | col_download_count
  | col_date_created | col_rating_count | col_pk

datatype OrderArg = Asc Column | Desc Column

fun column_value :: "Column \<Rightarrow> Package \<Rightarrow> int" where
  "column_value col_is_pinned p = (if is_pinned p then 1 else 0)"
| "column_value col_is_deprecated p = (if is_deprecated p then 1 else 0)"
| "column_value col_date_updated p = date_updated p"
| "column_value col_download_count p = download_count p"
| "column_value col_date_created p = date_created p"
| "column_value col_rating_count p = rating_count p"
| "column_value col_pk p = pk p"

fun sort_value :: "OrderArg \<Rightarrow> Package \<Rightarrow> int" where
  "sort_value (Asc c) p = column_value c p"
| "sort_value (Desc c) p = - column_value c p"

fun row_le :: "OrderArg list \<Rightarrow> Package \<Rightarrow> Package \<Rightarrow> bool" where
  "row_le [] a b = True"
| "row_le (t # ts) a b =
     (sort_value t a < sort_value t b \<or> (sort_value t a = sort_value t b \<and> row_le ts a b))"

fun insert_row :: "OrderArg list \<Rightarrow> Package \<Rightarrow> QuerySet \<Rightarrow> QuerySet" where
  "insert_row args x [] = [x]"
| "insert_row args x (y # ys) =
     (if row_le args x y then x # y # ys else y # insert_row args x ys)"

definition order_by :: "OrderArg list \<Rightarrow> QuerySet \<Rightarrow> QuerySet" where
  "order_by args qs = foldr (insert_row args) qs []"

text \<open>Keys are values expected in requests, values are args for \<^verbatim>\<open>.order_by()\<close>.\<close>

definition ORDER_ARGS :: "(string \<times> OrderArg) list" where
  "ORDER_ARGS =
     [(''last-updated'', Desc col_date_updated),
      (''most-downloaded'', Desc col_download_count),
      (''newest'', Desc col_date_created),
      (''top-rated'', Desc col_rating_count)]"

section \<open>Request validation\<close>

text \<open>
  \<^verbatim>\<open>PackageListRequestSerializer\<close> reads the query string field by field. What the
  conversion of a field's raw text gives is part of the request: the parameter is
  absent (or blank, which the serializer reads as absent for a field that is not
  required), its text is not of the field's type, or it converts to a value. The
  items of a list parameter are converted one by one (\<open>None\<close>: not an integer).
  The choices, the defaults and the minimum are the serializer's own and are checked
  here.
\<close>

datatype 'a FieldInput = Absent | Invalid | Given 'a

record QueryParams =
  raw_deprecated :: "bool FieldInput"
  raw_excluded_categories :: "int option list"
  raw_included_categories :: "int option list"
  raw_nsfw :: "bool FieldInput"
  raw_ordering :: "string option"
  raw_page :: "int FieldInput"
  raw_q :: "string FieldInput"
  raw_section :: "string FieldInput"

record ValidatedParams =
  deprecated :: bool
  excluded_categories :: "int list"
  included_categories :: "int list"
  nsfw :: bool
  ordering :: string
  page :: int
  q :: "string option"
  section_uuid :: "string option"

text \<open>
  The outcome of one field: an error, or the validated value (\<open>None\<close> when the field
  is skipped). A field with a default is never skipped.
\<close>

fun with_default :: "'a \<Rightarrow> 'a FieldInput \<Rightarrow> 'a option" where
  "with_default d Absent = Some d"
| "with_default d Invalid = None"
| "with_default d (Given v) = Some v"

fun optional_field :: "'a FieldInput \<Rightarrow> 'a option option" where
  "optional_field Absent = Some None"
| "optional_field Invalid = None"
| "optional_field (Given v) = Some (Some v)"

definition list_field :: "int option list \<Rightarrow> int list option" where
  "list_field items = (if list_all (\<lambda>i. i \<noteq> None) items then Some (map the items) else None)"

definition choice_field :: "string list \<Rightarrow> string \<Rightarrow> string option \<Rightarrow> string option" where
  "choice_field choices d input =
     (case input of
        None \<Rightarrow> Some d
      | Some s \<Rightarrow> if s \<in> set choices then Some s else None)"

definition integer_field_min :: "int \<Rightarrow> int \<Rightarrow> int FieldInput \<Rightarrow> int option" where
  "integer_field_min d min_value input =
     (case with_default d input of
        None \<Rightarrow> None
      | Some v \<Rightarrow> if v < min_value then None else Some v)"

text \<open>
  The exceptions that end a request, with the status of the response they become:
  \<^verbatim>\<open>ValidationError\<close> 400, \<^verbatim>\<open>Http404\<close> and \<^verbatim>\<open>NotFound\<close> 404, an uncaught
  \<^verbatim>\<open>KeyError\<close> 500.
\<close>

datatype HttpError = ValidationError "string list" | Http404 | KeyError

fun status_code :: "HttpError \<Rightarrow> nat" where
  "status_code (ValidationError names) = 400"
| "status_code Http404 = 404"
| "status_code KeyError = 500"

definition is_client_error :: "HttpError \<Rightarrow> bool" where
  "is_client_error e = (400 \<le> status_code e \<and> status_code e < 500)"

text \<open>
  \<^verbatim>\<open>is_valid(raise_exception=True)\<close>: every field is run; the request is valid when
  no field fails, otherwise \<^verbatim>\<open>ValidationError\<close> names the fields that failed.
\<close>

definition field_errors :: "QueryParams \<Rightarrow> string list" where
  "field_errors r =
     (if with_default False (raw_deprecated r) = None then [''deprecated''] else []) @
     (if list_field (raw_excluded_categories r) = None then [''excluded_categories''] else []) @
     (if list_field (raw_included_categories r) = None then [''included_categories''] else []) @
     (if with_default False (raw_nsfw r) = None then [''nsfw''] else []) @
     (if choice_field (map fst ORDER_ARGS) ''last-updated'' (raw_ordering r) = None
      then [''ordering''] else []) @
     (if integer_field_min 1 1 (raw_page r) = None then [''page''] else []) @
     (if optional_field (raw_q r) = None then [''q''] else []) @
     (if optional_field (raw_section r) = None then [''section''] else [])"

definition PackageListRequestSerializer :: "QueryParams \<Rightarrow> HttpError + ValidatedParams" where
  "PackageListRequestSerializer r =
     (if field_errors r \<noteq> [] then Inl (ValidationError (field_errors r))
      else Inr \<lparr>
        deprecated = the (with_default False (raw_deprecated r)),
        excluded_categories = the (list_field (raw_excluded_categories r)),
        included_categories = the (list_field (raw_included_categories r)),
        nsfw = the (with_default False (raw_nsfw r)),
        ordering = the (choice_field (map fst ORDER_ARGS) ''last-updated'' (raw_ordering r)),
        page = the (integer_field_min 1 1 (raw_page r)),
        q = the (optional_field (raw_q r)),
        section_uuid = the (optional_field (raw_section r)) \<rparr>)"

text \<open>\<^verbatim>\<open>_get_validated_query_params\<close>: validate, then sort every list value in place.\<close>

definition get_validated_query_params :: "QueryParams \<Rightarrow> HttpError + ValidatedParams" where
  "get_validated_query_params r =
     (case PackageListRequestSerializer r of
        Inl e \<Rightarrow> Inl e
      | Inr params \<Rightarrow>
          Inr (params\<lparr> excluded_categories := sort (excluded_categories params),
                       included_categories := sort (included_categories params) \<rparr>))"

section \<open>Pagination\<close>

text \<open>
  \<^verbatim>\<open>PackageListPaginator\<close> sets \<^verbatim>\<open>page_size = 20\<close> and leaves the rest of
  \<^verbatim>\<open>PageNumberPagination\<close> as it is: a Django \<^verbatim>\<open>Paginator\<close> with no orphans that
  allows an empty first page. \<^verbatim>\<open>page(number)\<close> raises \<^verbatim>\<open>EmptyPage\<close> outside
  \<open>1 .. num_pages\<close> and returns the slice \<^verbatim>\<open>object_list[bottom:top]\<close> otherwise.
\<close>

definition page_size :: nat where
  "page_size = 20"

definition num_pages :: "nat \<Rightarrow> nat" where
  "num_pages cnt = (max 1 cnt + page_size - 1) div page_size"

record Page =
  object_list :: QuerySet
  number :: int
  paginator_count :: nat

definition paginator_page :: "QuerySet \<Rightarrow> int \<Rightarrow> Page option" where
  "paginator_page queryset n =
     (let cnt = length queryset in
      if n < 1 then None
      else if n > int (num_pages cnt) \<and> n \<noteq> 1 then None
      else
        let bottom = (nat n - 1) * page_size;
            top = (if bottom + page_size \<ge> cnt then cnt else bottom + page_size)
        in Some \<lparr> object_list = drop bottom (take top queryset),
                   number = n,
                   paginator_count = cnt \<rparr>)"

definition has_previous :: "Page \<Rightarrow> bool" where
  "has_previous pg = (number pg > 1)"

definition has_next :: "Page \<Rightarrow> bool" where
  "has_next pg = (number pg < int (num_pages (paginator_count pg)))"

definition previous_page_number :: "Page \<Rightarrow> int" where
  "previous_page_number pg = number pg - 1"

definition next_page_number :: "Page \<Rightarrow> int" where
  "next_page_number pg = number pg + 1"

section \<open>Sibling links\<close>

text \<open>\<^verbatim>\<open>str()\<close> of an integer and of a boolean.\<close>

definition digit_char :: "nat \<Rightarrow> char" where
  "digit_char d = char_of (48 + d)"

fun str_nat :: "nat \<Rightarrow> string" where
  "str_nat n = (if n < 10 then [digit_char n] else str_nat (n div 10) @ [digit_char (n mod 10)])"

declare str_nat.simps [simp del]

definition str_int :: "int \<Rightarrow> string" where
  "str_int i = (if i < 0 then CHR ''-'' # str_nat (nat (- i)) else str_nat (nat i))"

definition str_bool :: "bool \<Rightarrow> string" where
  "str_bool b = (if b then ''True'' else ''False'')"

text \<open>
  \<^verbatim>\<open>urllib.parse.quote_plus\<close>: letters, digits and \<^verbatim>\<open>_.-~\<close> stay, a space becomes
  \<^verbatim>\<open>+\<close>, any other byte becomes \<^verbatim>\<open>%XX\<close>.
\<close>

definition always_safe :: "char \<Rightarrow> bool" where
  "always_safe c =
     (let n = (of_char c :: nat) in
        (65 \<le> n \<and> n \<le> 90) \<or> (97 \<le> n \<and> n \<le> 122) \<or> (48 \<le> n \<and> n \<le> 57) \<or>
        c \<in> set ''_.-~'')"

definition hex_digit :: "nat \<Rightarrow> char" where
  "hex_digit d = ''0123456789ABCDEF'' ! d"

definition quote_char :: "char \<Rightarrow> string" where
  "quote_char c =
     (if c = CHR '' '' then ''+''
      else if always_safe c then [c]
      else [CHR ''%'', hex_digit (of_char c div 16), hex_digit (of_char c mod 16)])"

definition quote_plus :: "string \<Rightarrow> string" where
  "quote_plus s = concat (map quote_char s)"

fun join :: "string \<Rightarrow> string list \<Rightarrow> string" where
  "join sep [] = []"
| "join sep [x] = x"
| "join sep (x # y # ys) = x @ sep @ join sep (y # ys)"

text \<open>
  The items of the validated parameters, in the order of the serializer's fields, as
  \<^verbatim>\<open>urlencode(params, doseq=True)\<close> writes them: a list value gives one item for each
  of its elements, a skipped field gives none.
\<close>

definition query_items :: "ValidatedParams \<Rightarrow> (string \<times> string) list" where
  "query_items params =
     [(''deprecated'', str_bool (deprecated params))] @
     map (\<lambda>i. (''excluded_categories'', str_int i)) (excluded_categories params) @
     map (\<lambda>i. (''included_categories'', str_int i)) (included_categories params) @
     [(''nsfw'', str_bool (nsfw params)),
      (''ordering'', ordering params),
      (''page'', str_int (page params))] @
     (case q params of None \<Rightarrow> [] | Some s \<Rightarrow> [(''q'', s)]) @
     (case section_uuid params of None \<Rightarrow> [] | Some u \<Rightarrow> [(''section'', u)])"

definition urlencode :: "ValidatedParams \<Rightarrow> string" where
  "urlencode params =
     join ''&'' (map (\<lambda>(k, v). quote_plus k @ ''='' @ quote_plus v) (query_items params))"

text \<open>
  \<^verbatim>\<open>_get_sibling_pages\<close>, given the base URL
  \<^verbatim>\<open>f"{settings.PROTOCOL}{settings.PRIMARY_HOST}{path}"\<close>, the validated parameters and
  the paginator's page. The assignment to \<^verbatim>\<open>params["page"]\<close> for the previous link is
  still in place when the next link is built, which assigns it again.
\<close>

definition get_sibling_pages ::
    "string \<Rightarrow> ValidatedParams \<Rightarrow> Page \<Rightarrow> string option \<times> string option" where
  "get_sibling_pages base_url validated pg =
     (let params = validated;
          (previous_url, params) =
             (if has_previous pg
              then (let params = params\<lparr> page := previous_page_number pg \<rparr>
                    in (Some (base_url @ ''?'' @ urlencode params), params))
              else (None, params));
          (next_url, params) =
             (if has_next pg
              then (let params = params\<lparr> page := next_page_number pg \<rparr>
                    in (Some (base_url @ ''?'' @ urlencode params), params))
              else (None, params))
      in (previous_url, next_url))"

section \<open>The list view\<close>

text \<open>
  The tables the view reads. \<^verbatim>\<open>get_object_or_404(Community, identifier=...)\<close> runs
  its query at once; a queryset of packages is lazy and runs when the paginator counts
  and slices it. Each step of the view yields the queries it ran, in order, and either
  the exception that ended the request or its value.
\<close>

record Community =
  community_identifier :: string
  community_key :: int
  require_package_listing_approval :: bool

record Database =
  communities :: "Community list"
  packages :: "Package list"
  listing_sections :: Sections

datatype DbQuery = CommunityQuery | SectionQuery | PackageCountQuery | PackageQuery | ListingQuery

type_synonym 'a Step = "DbQuery list \<times> (HttpError + 'a)"

definition returns :: "'a \<Rightarrow> 'a Step" where
  "returns x = ([], Inr x)"

definition and_then :: "'a Step \<Rightarrow> ('a \<Rightarrow> 'b Step) \<Rightarrow> 'b Step" where
  "and_then m f =
     (case m of
        (done1, Inl e) \<Rightarrow> (done1, Inl e)
      | (done1, Inr x) \<Rightarrow> (case f x of (done2, r) \<Rightarrow> (done1 @ done2, r)))"

definition get_community :: "Database \<Rightarrow> string \<Rightarrow> Community Step" where
  "get_community db community_id =
     ([CommunityQuery],
      case find (\<lambda>c. community_identifier c = community_id) (communities db) of
        None \<Rightarrow> Inl Http404
      | Some c \<Rightarrow> Inr c)"

text \<open>
  Modelled from the spec: the manager method \<^verbatim>\<open>Package.objects.active()\<close> is not part
  of the source at hand; it selects the active packages.
\<close>

definition active :: "QuerySet \<Rightarrow> QuerySet" where
  "active qs = filter is_active qs"

definition get_community_package_queryset :: "Database \<Rightarrow> Community \<Rightarrow> QuerySet" where
  "get_community_package_queryset db community =
     exclude (Q_invert (Q_kw (community_listings__community__pk (community_key community))))
       (active (packages db))"

definition get_queryset :: "Database \<Rightarrow> string \<Rightarrow> QuerySet Step" where
  "get_queryset db community_id =
     and_then (get_community db community_id)
       (\<lambda>community. returns (get_community_package_queryset db community))"

text \<open>
  The body of \<^verbatim>\<open>filter_queryset\<close> once the community, the base queryset and the
  validated parameters are at hand: the seven filters in the order of the source, then
  \<^verbatim>\<open>order_by\<close>. \<^verbatim>\<open>ORDER_ARGS[...]\<close> raises \<^verbatim>\<open>KeyError\<close> on a key it does not hold.
\<close>

definition apply_filters ::
    "bool \<Rightarrow> Sections \<Rightarrow> ValidatedParams \<Rightarrow> QuerySet \<Rightarrow> HttpError + QuerySet" where
  "apply_filters require_approval sections params queryset =
     (let queryset = filter_by_review_status require_approval queryset;
          queryset = filter_deprecated (deprecated params) queryset;
          queryset = filter_nsfw (nsfw params) queryset;
          queryset = filter_in_categories (included_categories params) queryset;
          queryset = filter_not_in_categories (excluded_categories params) queryset;
          queryset = filter_by_section sections (section_uuid params) queryset;
          queryset = filter_by_query (q params) queryset
      in case map_of ORDER_ARGS (ordering params) of
           None \<Rightarrow> Inl KeyError
         | Some arg \<Rightarrow>
             Inr (order_by [Desc col_is_pinned, Asc col_is_deprecated, arg,
                            Desc col_date_updated, Desc col_pk] queryset))"

text \<open>
  \<^verbatim>\<open>filter_queryset\<close> does not use its argument: it looks the community up and builds
  the base queryset again, then validates the request.
\<close>

definition section_queries :: "ValidatedParams \<Rightarrow> DbQuery list" where
  "section_queries params =
     (case section_uuid params of
        None \<Rightarrow> []
      | Some u \<Rightarrow> if u = [] then [] else [SectionQuery])"

definition filter_queryset ::
    "Database \<Rightarrow> string \<Rightarrow> QueryParams \<Rightarrow> QuerySet \<Rightarrow> QuerySet Step" where
  "filter_queryset db community_id request unused =
     and_then (get_community db community_id) (\<lambda>community.
     and_then (get_queryset db community_id) (\<lambda>queryset.
     and_then ([], get_validated_query_params request) (\<lambda>params.
       (section_queries params,
        apply_filters (require_package_listing_approval community) (listing_sections db)
          params queryset))))"

text \<open>
  \<^verbatim>\<open>paginate_queryset\<close> reads the page number from the request (1 when there is
  none), counts the queryset, and fetches the slice; an invalid page becomes
  \<^verbatim>\<open>NotFound\<close>. The paginator converts the raw text of the page itself; it is taken
  to read the integer that the serializer reads.
\<close>

definition paginate_queryset :: "QueryParams \<Rightarrow> QuerySet \<Rightarrow> Page Step" where
  "paginate_queryset request queryset =
     (let page_number = (case raw_page request of Given n \<Rightarrow> n | _ \<Rightarrow> 1)
      in case paginator_page queryset page_number of
           None \<Rightarrow> ([PackageCountQuery], Inl Http404)
         | Some pg \<Rightarrow> ([PackageCountQuery, PackageQuery], Inr pg))"

text \<open>
  \<^verbatim>\<open>_get_packages_dicts\<close> reads, for each package of the page, its listing in the
  community and gives one row for it; a row is held as the package it was made from.
\<close>

definition get_packages_dicts :: "Page \<Rightarrow> Package list Step" where
  "get_packages_dicts pg = (map (\<lambda>p. ListingQuery) (object_list pg), Inr (object_list pg))"

record Response =
  response_count :: nat
  response_previous :: "string option"
  response_next :: "string option"
  results :: "Package list"

definition list_view :: "string \<Rightarrow> Database \<Rightarrow> string \<Rightarrow> QueryParams \<Rightarrow> Response Step" where
  "list_view base_url db community_id request =
     and_then (get_queryset db community_id) (\<lambda>base.
     and_then (filter_queryset db community_id request base) (\<lambda>queryset.
     and_then (paginate_queryset request queryset) (\<lambda>pg.
     and_then (get_packages_dicts pg) (\<lambda>rows.
     and_then ([], get_validated_query_params request) (\<lambda>params.
       (case get_sibling_pages base_url params pg of
          (previous_url, next_url) \<Rightarrow>
            returns \<lparr> response_count = paginator_count pg,
                      response_previous = previous_url,
                      response_next = next_url,
                      results = rows \<rparr>))))))"

section \<open>The package listing cache\<close>

text \<open>
  Modelled from the spec: the model \<^verbatim>\<open>APIV1PackageCache\<close>, the task
  \<^verbatim>\<open>update_api_v1_caches\<close> and the view behind \<^verbatim>\<open>/api/v1/package/\<close> are missing from the
  source at hand, which holds only their test. A cache entry has the fields of the
  spec's data model and an identity; timestamps count microseconds. The store is the
  log of all entries, oldest first, never changed but for the active flag.
\<close>

record CacheEntry =
  cache_id :: nat
  community_ref :: int
  content :: string
  content_type :: string
  content_encoding :: string
  last_modified :: nat
  entry_is_active :: bool

type_synonym CacheStore = "CacheEntry list"

text \<open>
  Modelled from the spec: \<^verbatim>\<open>regenerate\<close> (4.1), given the current time and the
  compressed payload of the community's visible packages. It stamps a new entry with
  the current time, marks it active and deactivates the previous entries of that
  community. The identity of the new entry is its place in the log.
\<close>

definition new_entry :: "nat \<Rightarrow> string \<Rightarrow> int \<Rightarrow> CacheStore \<Rightarrow> CacheEntry" where
  "new_entry current_time payload community store =
     \<lparr> cache_id = length store,
       community_ref = community,
       content = payload,
       content_type = ''application/json'',
       content_encoding = ''gzip'',
       last_modified = current_time,
       entry_is_active = True \<rparr>"

definition regenerate :: "nat \<Rightarrow> string \<Rightarrow> int \<Rightarrow> CacheStore \<Rightarrow> CacheStore" where
  "regenerate current_time payload community store =
     map (\<lambda>e. if community_ref e = community then e\<lparr> entry_is_active := False \<rparr> else e) store @
     [new_entry current_time payload community store]"

text \<open>
  Modelled from the spec: \<^verbatim>\<open>get_latest\<close> (4.2), the most recent active entry of the
  community, \<open>None\<close> when there is none.
\<close>

definition get_latest :: "int \<Rightarrow> CacheStore \<Rightarrow> CacheEntry option" where
  "get_latest community store =
     (case filter (\<lambda>e. community_ref e = community \<and> entry_is_active e) store of
        [] \<Rightarrow> None
      | e # es \<Rightarrow> Some (last (e # es)))"

text \<open>
  Modelled from the spec: the caller of \<^verbatim>\<open>get_latest\<close> (4.2). Both timestamps are cut
  to whole seconds before they are compared. The formatting of an HTTP date is the
  framework's and is a parameter.
\<close>

record HttpResponse =
  status :: nat
  body :: string
  headers :: "(string \<times> string) list"

definition whole_seconds :: "nat \<Rightarrow> nat" where
  "whole_seconds t = t div 1000000"

definition full_response :: "(nat \<Rightarrow> string) \<Rightarrow> CacheEntry \<Rightarrow> HttpResponse" where
  "full_response http_date entry =
     \<lparr> status = 200,
       body = content entry,
       headers = [(''Content-Type'', content_type entry),
                  (''Content-Encoding'', content_encoding entry),
                  (''Last-Modified'', http_date (whole_seconds (last_modified entry)))] \<rparr>"

definition cached_endpoint ::
    "(nat \<Rightarrow> string) \<Rightarrow> CacheStore \<Rightarrow> int \<Rightarrow> nat option \<Rightarrow> HttpResponse" where
  "cached_endpoint http_date store community if_modified_since =
     (case get_latest community store of
        None \<Rightarrow> \<lparr> status = 503, body = [], headers = [] \<rparr>
      | Some entry \<Rightarrow>
          (case if_modified_since of
             None \<Rightarrow> full_response http_date entry
           | Some t \<Rightarrow>
               if whole_seconds t \<ge> whole_seconds (last_modified entry)
               then \<lparr> status = 304, body = [], headers = [] \<rparr>
               else full_response http_date entry))"

text \<open>
  Modelled from the spec: time passes and regenerations happen (5, 8). A regeneration
  reads the clock; the clock never runs backwards.
\<close>

datatype CacheEvent = Delay nat | Regenerate int string

record CacheSystem =
  clock :: nat
  cache_store :: CacheStore

fun cache_step :: "CacheEvent \<Rightarrow> CacheSystem \<Rightarrow> CacheSystem" where
  "cache_step (Delay d) s = s\<lparr> clock := clock s + d \<rparr>"
| "cache_step (Regenerate community payload) s =
     s\<lparr> cache_store := regenerate (clock s) payload community (cache_store s) \<rparr>"

definition cache_run :: "CacheEvent list \<Rightarrow> CacheSystem \<Rightarrow> CacheSystem" where
  "cache_run events s = fold cache_step events s"

definition initial_system :: "nat \<Rightarrow> CacheSystem" where
  "initial_system t0 = \<lparr> clock = t0, cache_store = [] \<rparr>"

definition entries_of :: "int \<Rightarrow> CacheStore \<Rightarrow> CacheEntry list" where
  "entries_of community store = filter (\<lambda>e. community_ref e = community) store"

section \<open>The ordering as the specification words it\<close>

text \<open>
  The order key the caller selects, by its name in the request, and the relation
  "is listed before": pinned first, deprecated last, then the selected key descending,
  then last-updated descending, then the identifier descending.
\<close>

definition spec_order_key :: "string \<Rightarrow> Package \<Rightarrow> int" where
  "spec_order_key k p =
     (if k = ''last-updated'' then date_updated p
      else if k = ''most-downloaded'' then download_count p
      else if k = ''newest'' then date_created p
      else rating_count p)"

definition spec_listed_before :: "(Package \<Rightarrow> int) \<Rightarrow> Package \<Rightarrow> Package \<Rightarrow> bool" where
  "spec_listed_before key a b =
     ((is_pinned a \<and> \<not> is_pinned b) \<or>
      (is_pinned a = is_pinned b \<and>
        ((\<not> is_deprecated a \<and> is_deprecated b) \<or>
         (is_deprecated a = is_deprecated b \<and>
           (key a > key b \<or>
            (key a = key b \<and>
              (date_updated a > date_updated b \<or>
               (date_updated a = date_updated b \<and> pk a \<ge> pk b))))))))"

section \<open>Example data\<close>

text \<open>
  Two communities, the first of which requires the approval of its listings, and a
  handful of packages, used where a statement is run on a concrete input.
\<close>

definition example_listing :: "int \<Rightarrow> PackageListing" where
  "example_listing k =
     \<lparr> community_pk = k, review_status = approved, has_nsfw_content = False,
       categories = [1, 2] \<rparr>"

definition example_package :: "int \<Rightarrow> string \<Rightarrow> Package" where
  "example_package k n =
     \<lparr> pk = k, name = n, owner_name = ''team'', latest_description = ''a mod'',
       is_deprecated = False, is_pinned = False, date_created = k, date_updated = 100 - k,
       download_count = k * k, rating_count = k,
       is_active = True, community_listings = [example_listing 1] \<rparr>"

definition example_communities :: "Community list" where
  "example_communities =
     [\<lparr> community_identifier = ''riskofrain2'', community_key = 1,
        require_package_listing_approval = True \<rparr>,
      \<lparr> community_identifier = ''valheim'', community_key = 2,
        require_package_listing_approval = False \<rparr>]"

definition example_db :: Database where
  "example_db =
     \<lparr> communities = example_communities,
       packages =
         [example_package 1 ''alpha'',
          (example_package 2 ''beta'')\<lparr> is_deprecated := True \<rparr>,
          (example_package 3 ''gamma'')\<lparr> is_pinned := True \<rparr>,
          example_package 4 ''delta''],
       listing_sections = Map.empty \<rparr>"

definition default_request :: QueryParams where
  "default_request =
     \<lparr> raw_deprecated = Absent, raw_excluded_categories = [], raw_included_categories = [],
       raw_nsfw = Absent, raw_ordering = None, raw_page = Absent, raw_q = Absent,
       raw_section = Absent \<rparr>"

definition example_request :: QueryParams where
  "example_request =
     default_request\<lparr> raw_deprecated := Given True, raw_ordering := Some ''most-downloaded'' \<rparr>"

definition example_params :: ValidatedParams where
  "example_params =
     \<lparr> deprecated = True, excluded_categories = [], included_categories = [], nsfw = False,
       ordering = ''most-downloaded'', page = 1, q = None, section_uuid = None \<rparr>"

section \<open>The free-text filter as the specification words it\<close>

text \<open>
  A token matches a package when it occurs, letter case ignored, in the package's name,
  its owner's name or the description of its latest version.
\<close>

definition token_matches :: "string \<Rightarrow> Package \<Rightarrow> bool" where
  "token_matches t p =
     (icontains (name p) t \<or> icontains (owner_name p) t \<or> icontains (latest_description p) t)"

text \<open>
  The specification splits the query on whitespace and asks every token to match.
\<close>

definition is_whitespace :: "char \<Rightarrow> bool" where
  "is_whitespace c = (c \<in> set [CHR '' '', CHR 0x09, CHR 0x0A, CHR 0x0B, CHR 0x0C, CHR 0x0D])"

fun split_where :: "(char \<Rightarrow> bool) \<Rightarrow> string \<Rightarrow> string list" where
  "split_where sep [] = [[]]"
| "split_where sep (c # cs) =
     (if sep c then [] # split_where sep cs
      else (case split_where sep cs of
              [] \<Rightarrow> [[c]]
            | w # ws \<Rightarrow> (c # w) # ws))"

definition spec_tokens :: "string \<Rightarrow> string list" where
  "spec_tokens s = filter (\<lambda>x. x \<noteq> []) (split_where is_whitespace s)"

definition spec_filter_by_query :: "string \<Rightarrow> QuerySet \<Rightarrow> QuerySet" where
  "spec_filter_by_query s qs = filter (\<lambda>p. list_all (\<lambda>t. token_matches t p) (spec_tokens s)) qs"

text \<open>
  One round of the outer loop of \<^verbatim>\<open>filter_by_query\<close>, and what the accumulated
  \<^verbatim>\<open>Q\<close> says once the parts in \<open>S\<close> have gone through it: no part of \<open>S\<close> matches.
\<close>

definition add_part :: "string \<Rightarrow> Q \<Rightarrow> Q" where
  "add_part part acc =
     fold (\<lambda>field q'. Q_and q' (Q_invert (Q_kw (field part)))) search_fields acc"

definition no_token_of :: "string set \<Rightarrow> Q \<Rightarrow> bool" where
  "no_token_of S acc =
     (if S = {} then acc = Q_empty
      else \<not> is_empty_Q acc \<and> (\<exists>cs. acc = Node False cs) \<and>
           (\<forall>p. Q_holds acc p = (\<forall>t\<in>S. \<not> token_matches t p)))"


text \<open>
  A package listed in both example communities: rejected in the first, which requires
  approval, and approved in the second.
\<close>

definition cross_listed_package :: Package where
  "cross_listed_package =
     (example_package 7 ''omega'')\<lparr> community_listings :=
        [(example_listing 1)\<lparr> review_status := rejected \<rparr>, example_listing 2] \<rparr>"

definition cross_listed_db :: Database where
  "cross_listed_db = example_db\<lparr> packages := [cross_listed_package] \<rparr>"

text \<open>
  What holds of the cache system at every moment: no entry is stamped later than the
  clock reads, and the entries of each community are stamped in the order of the log.
\<close>

definition cache_inv :: "CacheSystem \<Rightarrow> bool" where
  "cache_inv s =
     ((\<forall>e\<in>set (cache_store s). last_modified e \<le> clock s) \<and>
      (\<forall>c. sorted (map last_modified (entries_of c (cache_store s)))))"

section \<open>Malformed requests as the specification words them\<close>

text \<open>
  A request is malformed when its ordering is not one of the four known keys, when an
  item of a category list is not an integer, when its page is not an integer or is
  below 1, or when another parameter is not of its field's type.
\<close>

definition spec_malformed :: "QueryParams \<Rightarrow> bool" where
  "spec_malformed r =
     ((case raw_ordering r of
         None \<Rightarrow> False
       | Some s \<Rightarrow> s \<notin> set [''last-updated'', ''most-downloaded'', ''newest'', ''top-rated'']) \<or>
      None \<in> set (raw_included_categories r) \<or>
      None \<in> set (raw_excluded_categories r) \<or>
      (case raw_page r of Absent \<Rightarrow> False | Invalid \<Rightarrow> True | Given n \<Rightarrow> n < 1) \<or>
      raw_deprecated r = Invalid \<or> raw_nsfw r = Invalid \<or>
      raw_q r = Invalid \<or> raw_section r = Invalid)"

section \<open>More example data\<close>

text \<open>A community with 45 packages, and a request for the second page of its list.\<close>

definition many_packages :: "nat \<Rightarrow> Package list" where
  "many_packages n = map (\<lambda>k. example_package (int k) ''mod'') [1..<Suc n]"

definition big_db :: Database where
  "big_db = example_db\<lparr> packages := many_packages 45 \<rparr>"

definition page2_request :: QueryParams where
  "page2_request =
     default_request\<lparr> raw_page := Given 2, raw_excluded_categories := [Some 9, Some 7],
                      raw_q := Given ''mod team'' \<rparr>"

definition page2_params :: ValidatedParams where
  "page2_params =
     \<lparr> deprecated = False, excluded_categories = [7, 9], included_categories = [],
       nsfw = False, ordering = ''last-updated'', page = 2, q = Some ''mod team'',
       section_uuid = None \<rparr>"

text \<open>The parameters of a request that sets nothing.\<close>

definition default_params :: ValidatedParams where
  "default_params =
     \<lparr> deprecated = False, excluded_categories = [], included_categories = [], nsfw = False,
       ordering = ''last-updated'', page = 1, q = None, section_uuid = None \<rparr>"




text \<open>One section, which requires category 5; no section has the second uuid.\<close>

definition example_sections :: Sections where
  "example_sections =
     [''0c8a0a3e-5f0c-4d5e-9d0e-1f2a3b4c5d6e'' \<mapsto>
        \<lparr> require_categories = [5], exclude_categories = [] \<rparr>]"

definition unknown_section :: string where
  "unknown_section = ''ffffffff-ffff-4fff-8fff-ffffffffffff''"

text \<open>A request that asks for an ordering the view does not know.\<close>

definition bogus_request :: QueryParams where
  "bogus_request = default_request\<lparr> raw_ordering := Some ''alphabetical'' \<rparr>"

section \<open>Properties of the ordering\<close>

lemma row_le_total: "row_le args a b \<or> row_le args b a"
  by (induction args) auto

lemma row_le_trans: "row_le args a b \<Longrightarrow> row_le args b c \<Longrightarrow> row_le args a c"
  by (induction args) auto

lemma set_insert_row: "set (insert_row args x ys) = insert x (set ys)"
  by (induction ys) auto

lemma sorted_insert_row:
  "sorted_wrt (row_le args) ys \<Longrightarrow> sorted_wrt (row_le args) (insert_row args x ys)"
proof (induction ys)
  case Nil
  then show ?case by simp
next
  case (Cons y ys)
  show ?case
  proof (cases "row_le args x y")
    case True
    have "\<forall>z\<in>set ys. row_le args x z"
      using Cons.prems True row_le_trans by auto
    with True Cons.prems show ?thesis by simp
  next
    case False
    then have "row_le args y x" using row_le_total by blast
    with False Cons show ?thesis by (auto simp: set_insert_row)
  qed
qed

lemma sorted_order_by: "sorted_wrt (row_le args) (order_by args qs)"
  unfolding order_by_def by (induction qs) (auto intro: sorted_insert_row)

lemma mset_insert_row: "mset (insert_row args x ys) = add_mset x (mset ys)"
  by (induction ys) auto

lemma mset_order_by: "mset (order_by args qs) = mset qs"
  unfolding order_by_def by (induction qs) (auto simp: mset_insert_row)


lemma length_order_by: "length (order_by args qs) = length qs"
  using mset_order_by by (metis size_mset)

lemma order_arg_key:
  "map_of ORDER_ARGS k = Some arg \<Longrightarrow> sort_value arg p = - spec_order_key k p"
  by (auto simp: ORDER_ARGS_def spec_order_key_def split: if_splits)

lemma row_le_spec:
  assumes "map_of ORDER_ARGS k = Some arg"
  shows "row_le [Desc col_is_pinned, Asc col_is_deprecated, arg, Desc col_date_updated, Desc col_pk] a b
         = spec_listed_before (spec_order_key k) a b"
  using order_arg_key[OF assms, of a] order_arg_key[OF assms, of b]
  by (auto simp: spec_listed_before_def)

lemma apply_filters_sorted:
  assumes "apply_filters ra secs params qs = Inr res"
  shows "sorted_wrt (spec_listed_before (spec_order_key (ordering params))) res"
proof -
  from assms obtain arg qs' where a: "map_of ORDER_ARGS (ordering params) = Some arg"
    and r: "res = order_by [Desc col_is_pinned, Asc col_is_deprecated, arg,
                            Desc col_date_updated, Desc col_pk] qs'"
    by (auto simp: apply_filters_def Let_def split: option.splits)
  have "sorted_wrt (row_le [Desc col_is_pinned, Asc col_is_deprecated, arg,
                            Desc col_date_updated, Desc col_pk]) res"
    unfolding r by (rule sorted_order_by)
  moreover have "row_le [Desc col_is_pinned, Asc col_is_deprecated, arg,
                         Desc col_date_updated, Desc col_pk]
      = spec_listed_before (spec_order_key (ordering params))"
    using row_le_spec[OF a] by (intro ext)
  ultimately show ?thesis by simp
qed

section \<open>Properties of the list view\<close>

lemma validated_page:
  "get_validated_query_params request = Inr params \<Longrightarrow>
   page params = (case raw_page request of Given n \<Rightarrow> n | _ \<Rightarrow> 1) \<and> 1 \<le> page params"
  by (auto simp: get_validated_query_params_def PackageListRequestSerializer_def field_errors_def
      integer_field_min_def split: sum.splits if_splits FieldInput.splits option.splits)

text \<open>What a request that is answered has gone through.\<close>

lemma list_view_Inr:
  assumes "list_view base_url db community_id request = (trace, Inr resp)"
  shows "\<exists>community params queryset pg.
      find (\<lambda>c. community_identifier c = community_id) (communities db) = Some community \<and>
      get_validated_query_params request = Inr params \<and>
      apply_filters (require_package_listing_approval community) (listing_sections db) params
         (get_community_package_queryset db community) = Inr queryset \<and>
      paginator_page queryset (page params) = Some pg \<and>
      resp = \<lparr> response_count = paginator_count pg,
               response_previous = fst (get_sibling_pages base_url params pg),
               response_next = snd (get_sibling_pages base_url params pg),
               results = object_list pg \<rparr>"
proof -
  from assms obtain community where
    c: "find (\<lambda>c. community_identifier c = community_id) (communities db) = Some community"
    by (auto simp: list_view_def get_queryset_def get_community_def and_then_def returns_def
        split: option.splits)
  then have gq: "get_queryset db community_id =
      ([CommunityQuery], Inr (get_community_package_queryset db community))"
    by (simp add: get_queryset_def get_community_def and_then_def returns_def)
  from assms gq c obtain params where v: "get_validated_query_params request = Inr params"
    by (cases "get_validated_query_params request")
       (auto simp: list_view_def filter_queryset_def get_community_def and_then_def returns_def)
  from assms gq c v obtain queryset where
    f: "apply_filters (require_package_listing_approval community) (listing_sections db) params
         (get_community_package_queryset db community) = Inr queryset"
    by (cases "apply_filters (require_package_listing_approval community) (listing_sections db)
                 params (get_community_package_queryset db community)")
       (auto simp: list_view_def filter_queryset_def get_community_def and_then_def returns_def)
  have pn: "(case raw_page request of Given n \<Rightarrow> n | _ \<Rightarrow> 1) = page params"
    using validated_page[OF v] by simp
  from assms gq c v f pn obtain pg where p: "paginator_page queryset (page params) = Some pg"
    by (cases "paginator_page queryset (page params)")
       (auto simp: list_view_def filter_queryset_def get_community_def and_then_def returns_def
          paginate_queryset_def)
  from assms gq c v f pn p have "resp = \<lparr> response_count = paginator_count pg,
               response_previous = fst (get_sibling_pages base_url params pg),
               response_next = snd (get_sibling_pages base_url params pg),
               results = object_list pg \<rparr>"
    by (auto simp: list_view_def filter_queryset_def get_community_def and_then_def returns_def
         paginate_queryset_def get_packages_dicts_def split: prod.splits)
  with c v f p show ?thesis by blast
qed

lemma paginator_page_object_list:
  assumes "paginator_page queryset n = Some pg"
  shows "object_list pg =
           drop ((nat n - 1) * page_size)
             (take (if (nat n - 1) * page_size + page_size \<ge> length queryset
                    then length queryset else (nat n - 1) * page_size + page_size) queryset)"
    and "number pg = n" and "paginator_count pg = length queryset"
    and "1 \<le> n" and "n \<le> int (num_pages (length queryset))"
  using assms by (auto simp: paginator_page_def Let_def num_pages_def page_size_def split: if_splits)

lemma paginator_page_length:
  assumes "paginator_page queryset n = Some pg"
  shows "length (object_list pg) \<le> page_size"
  unfolding paginator_page_object_list(1)[OF assms] by auto

lemma paginator_page_sorted:
  assumes "paginator_page queryset n = Some pg" and "sorted_wrt R queryset"
  shows "sorted_wrt R (object_list pg)"
  unfolding paginator_page_object_list(1)[OF assms(1)]
  using assms(2) by (intro sorted_wrt_drop sorted_wrt_take)

section \<open>Properties of the filters\<close>

lemma Q_holds_invert: "Q_holds (Q_invert x) p = (\<not> Q_holds x p)"
  by (cases x rule: squash.cases) (auto simp: Q_invert_def)

lemma is_empty_Q_Node: "is_empty_Q (Node n cs) = (cs = [])"
  by (cases cs) auto

lemma exclude_eq:
  "exclude x qs = (if is_empty_Q x then qs else filter (\<lambda>p. \<not> Q_holds x p) qs)"
  by (simp add: exclude_def Q_holds_invert cong: filter_cong)


lemma exclude_not_Q_kw: "exclude (Q_invert (Q_kw l)) qs = filter (\<lambda>p. lookup_holds l p) qs"
  by (simp add: exclude_eq Q_kw_def Q_invert_def)





text \<open>
  The review-status filter looks at all the listings of a package: it keeps a package
  that has a listing of an allowed status, in whichever community.
\<close>

lemma filter_by_review_status_eq:
  "filter_by_review_status require_approval qs =
     filter (\<lambda>p. \<exists>l\<in>set (community_listings p).
                 review_status l = approved \<or>
                 (\<not> require_approval \<and> review_status l = unreviewed)) qs"
  by (auto simp add: filter_by_review_status_def exclude_not_Q_kw list_ex_iff
      intro!: filter_cong)

lemma filter_by_section_missing:
  "sections u = None \<Longrightarrow> filter_by_section sections (Some u) qs = qs"
  by (simp add: filter_by_section_def filter_in_categories_def filter_not_in_categories_def)

lemma add_part_step:
  assumes "no_token_of S acc"
  shows "no_token_of (insert part S) (add_part part acc)"
proof (cases "S = {}")
  case True
  with assms have "acc = Q_empty" by (simp add: no_token_of_def)
  then show ?thesis
    by (simp add: True no_token_of_def add_part_def search_fields_def Q_and_def Q_invert_def
        Q_kw_def token_matches_def)
next
  case False
  with assms obtain cs where acc: "acc = Node False cs" and ne: "cs \<noteq> []"
    and h: "\<And>p. Q_holds acc p = (\<forall>t\<in>S. \<not> token_matches t p)"
    by (auto simp: no_token_of_def is_empty_Q_Node)
  have "add_part part acc =
          Node False (cs @ [Node True [Leaf (name__icontains part)],
                            Node True [Leaf (owner__name__icontains part)],
                            Node True [Leaf (latest__description__icontains part)]])"
    using ne
    by (simp add: acc add_part_def search_fields_def Q_and_def Q_invert_def Q_kw_def
        is_empty_Q_Node)
  moreover have "\<And>p. list_all (\<lambda>c. Q_holds c p) cs = (\<forall>t\<in>S. \<not> token_matches t p)"
    using h by (simp add: acc)
  ultimately show ?thesis
    by (auto simp: no_token_of_def is_empty_Q_Node token_matches_def)
qed

lemma fold_add_part:
  "no_token_of S acc \<Longrightarrow> no_token_of (set parts \<union> S) (fold add_part parts acc)"
proof (induction parts arbitrary: S acc)
  case Nil
  then show ?case by simp
next
  case (Cons part parts)
  from Cons.IH[OF add_part_step[OF Cons.prems, of part]] show ?case by simp
qed

lemma build_icontains_query_holds: "no_token_of (set parts) (build_icontains_query parts)"
proof -
  have "build_icontains_query parts = fold add_part parts Q_empty"
    by (simp add: build_icontains_query_def add_part_def[abs_def])
  moreover have "no_token_of {} Q_empty"
    by (simp add: no_token_of_def)
  ultimately show ?thesis
    using fold_add_part[of "{}" Q_empty parts] by simp
qed

lemma filter_by_query_eq:
  "filter_by_query (Some s) qs =
     (if s = [] then qs
      else if query_parts s = [] then distinct_rows qs
      else distinct_rows (filter (\<lambda>p. \<exists>t\<in>set (query_parts s). token_matches t p) qs))"
  using build_icontains_query_holds[of "query_parts s"]
  by (auto simp: filter_by_query_def exclude_eq no_token_of_def
      intro!: arg_cong[where f=distinct_rows] filter_cong)






section \<open>Properties of the validation\<close>

lemma with_default_None: "with_default d x = None \<longleftrightarrow> x = Invalid"
  by (cases x) auto

lemma optional_field_None: "optional_field x = None \<longleftrightarrow> x = Invalid"
  by (cases x) auto

lemma list_field_None: "list_field xs = None \<longleftrightarrow> None \<in> set xs"
  by (auto simp: list_field_def list_all_iff)

lemma malformed_iff_errors: "spec_malformed r \<longleftrightarrow> field_errors r \<noteq> []"
  by (auto simp: spec_malformed_def field_errors_def with_default_None optional_field_None
      list_field_None choice_field_def integer_field_min_def ORDER_ARGS_def
      split: option.splits FieldInput.splits if_splits)

text \<open>The validation fails on the malformed requests and on no others.\<close>

lemma malformed_validation:
  "spec_malformed r \<longleftrightarrow> (\<exists>names. get_validated_query_params r = Inl (ValidationError names))"
  by (auto simp: malformed_iff_errors get_validated_query_params_def
      PackageListRequestSerializer_def)

lemma validated_sorted:
  "get_validated_query_params request = Inr params \<Longrightarrow>
   sorted (included_categories params) \<and> sorted (excluded_categories params)"
  by (auto simp: get_validated_query_params_def split: sum.splits)

lemma list_field_perm:
  assumes "mset xs = mset ys"
  shows "list_field xs = None \<longleftrightarrow> list_field ys = None"
  using mset_eq_setD[OF assms] by (simp add: list_field_None)

lemma sort_list_field_perm:
  assumes "mset xs = mset ys"
  shows "sort (the (list_field xs)) = sort (the (list_field ys))"
proof (cases "list_field xs")
  case None
  then show ?thesis using list_field_perm[OF assms] by simp
next
  case (Some a)
  then have x: "list_field xs = Some (map the xs)"
    by (auto simp: list_field_def split: if_splits)
  from Some list_field_perm[OF assms] have y: "list_field ys = Some (map the ys)"
    by (auto simp: list_field_def split: if_splits)
  have "mset (map the xs) = mset (map the ys)"
    using assms by (metis mset_map)
  then have "sort (map the xs) = sort (map the ys)"
    by (metis properties_for_sort mset_sort sorted_sort)
  then show ?thesis by (simp add: x y)
qed

text \<open>The order in which a list parameter gives its items does not reach the view.\<close>

lemma validated_perm:
  assumes "mset inc = mset (raw_included_categories request)"
      and "mset exc = mset (raw_excluded_categories request)"
  shows "get_validated_query_params
           (request\<lparr> raw_included_categories := inc, raw_excluded_categories := exc \<rparr>)
         = get_validated_query_params request"
proof -
  let ?r = "request\<lparr> raw_included_categories := inc, raw_excluded_categories := exc \<rparr>"
  have e: "field_errors ?r = field_errors request"
    using list_field_perm[OF assms(1)] list_field_perm[OF assms(2)]
    by (simp add: field_errors_def)
  show ?thesis
    using sort_list_field_perm[OF assms(1)] sort_list_field_perm[OF assms(2)]
    by (simp add: get_validated_query_params_def PackageListRequestSerializer_def e)
qed

section \<open>Properties of the sibling links\<close>

lemma quote_char_digit: "d < 10 \<Longrightarrow> quote_char (digit_char d) = [digit_char d]"
proof -
  assume d: "d < 10"
  have o: "(of_char (digit_char d) :: nat) = 48 + d"
    using d by (simp add: digit_char_def)
  have "digit_char d \<noteq> CHR '' ''"
  proof
    assume "digit_char d = CHR '' ''"
    then have "(of_char (digit_char d) :: nat) = of_char (CHR '' '')" by simp
    with o show False by simp
  qed
  then show ?thesis using o d by (simp add: quote_char_def always_safe_def)
qed

lemma quote_plus_str_nat: "quote_plus (str_nat n) = str_nat n"
proof (induction n rule: str_nat.induct)
  case (1 n)
  show ?case
  proof (cases "n < 10")
    case True
    then show ?thesis
      by (subst (1 2) str_nat.simps) (simp add: quote_plus_def quote_char_digit)
  next
    case False
    with 1 have ih: "quote_plus (str_nat (n div 10)) = str_nat (n div 10)" by simp
    have "n mod 10 < 10" by simp
    then have "quote_char (digit_char (n mod 10)) = [digit_char (n mod 10)]"
      by (rule quote_char_digit)
    with False ih show ?thesis
      by (subst (1 2) str_nat.simps) (simp add: quote_plus_def)
  qed
qed

lemma join_mid: "\<exists>pre post. join sep (xs @ x # ys) = pre @ x @ post"
proof (induction xs)
  case Nil
  show ?case
  proof (cases ys)
    case Nil
    have "join sep ([] @ x # []) = [] @ x @ []" by simp
    then show ?thesis unfolding Nil by blast
  next
    case (Cons y ys')
    have "join sep ([] @ x # y # ys') = [] @ x @ (sep @ join sep (y # ys'))" by simp
    then show ?thesis unfolding Cons by blast
  qed
next
  case (Cons a xs)
  then obtain pre post where h: "join sep (xs @ x # ys) = pre @ x @ post" by blast
  obtain z zs where z: "xs @ x # ys = z # zs" by (cases xs) auto
  have "join sep ((a # xs) @ x # ys) = a @ sep @ join sep (xs @ x # ys)"
    using z by simp
  then have "join sep ((a # xs) @ x # ys) = (a @ sep @ pre) @ x @ post"
    using h by simp
  then show ?case by blast
qed

text \<open>The query string of a link carries the page number of the parameters.\<close>

lemma urlencode_page:
  assumes "0 \<le> page params"
  shows "\<exists>pre post. urlencode params = pre @ ''page='' @ str_int (page params) @ post"
proof -
  let ?f = "\<lambda>(k, v). quote_plus k @ ''='' @ quote_plus v"
  obtain A B where ab: "query_items params = A @ (''page'', str_int (page params)) # B"
    unfolding query_items_def by (metis append.assoc append_Cons append_Nil)
  have k: "quote_plus ''page'' = ''page''" by code_simp
  have v: "quote_plus (str_int (page params)) = str_int (page params)"
    using assms by (simp add: str_int_def quote_plus_str_nat)
  have "urlencode params = join ''&'' (map ?f A @ ?f (''page'', str_int (page params)) # map ?f B)"
    by (simp add: urlencode_def ab)
  with join_mid[of "''&''" "map ?f A" "?f (''page'', str_int (page params))" "map ?f B"]
  show ?thesis by (simp add: k v)
qed

lemma list_view_cong:
  assumes "get_validated_query_params r1 = get_validated_query_params r2"
      and "raw_page r1 = raw_page r2"
  shows "list_view base_url db community_id r1 = list_view base_url db community_id r2"
  using assms by (simp add: list_view_def filter_queryset_def paginate_queryset_def)

text \<open>The links of a response, for any page.\<close>

lemma list_view_links:
  assumes "list_view base_url db community_id request = (trace, Inr resp)"
      and "get_validated_query_params request = Inr params"
  shows "response_previous resp =
           (if 1 < page params
            then Some (base_url @ ''?'' @ urlencode (params\<lparr> page := page params - 1 \<rparr>))
            else None)"
    and "response_next resp =
           (if page params < int (num_pages (response_count resp))
            then Some (base_url @ ''?'' @ urlencode (params\<lparr> page := page params + 1 \<rparr>))
            else None)"
    and "length (results resp) \<le> page_size"
proof -
  from list_view_Inr[OF assms(1)] assms(2) obtain community queryset pg where
    p: "paginator_page queryset (page params) = Some pg"
    and r: "resp = \<lparr> response_count = paginator_count pg,
               response_previous = fst (get_sibling_pages base_url params pg),
               response_next = snd (get_sibling_pages base_url params pg),
               results = object_list pg \<rparr>"
    by auto
  have n: "number pg = page params"
    using paginator_page_object_list(2)[OF p] .
  show "response_previous resp =
           (if 1 < page params
            then Some (base_url @ ''?'' @ urlencode (params\<lparr> page := page params - 1 \<rparr>))
            else None)"
    by (simp add: r get_sibling_pages_def has_previous_def has_next_def n
        previous_page_number_def next_page_number_def Let_def)
  show "response_next resp =
           (if page params < int (num_pages (response_count resp))
            then Some (base_url @ ''?'' @ urlencode (params\<lparr> page := page params + 1 \<rparr>))
            else None)"
    by (simp add: r get_sibling_pages_def has_previous_def has_next_def n
        previous_page_number_def next_page_number_def Let_def)
  show "length (results resp) \<le> page_size"
    using paginator_page_length[OF p] by (simp add: r)
qed

lemma Inr_projr: "\<not> isl (snd x) \<Longrightarrow> x = (fst x, Inr (projr (snd x)))"
  by (cases x; cases "snd x") auto

section \<open>Properties of the cache\<close>

lemma get_latest_regenerate:
  "get_latest c (regenerate t payload c store) = Some (new_entry t payload c store)"
proof -
  have "filter (\<lambda>e. community_ref e = c \<and> entry_is_active e)
          (map (\<lambda>e. if community_ref e = c then e\<lparr> entry_is_active := False \<rparr> else e) store)
        = []"
    by (induction store) auto
  then show ?thesis
    by (simp add: get_latest_def regenerate_def new_entry_def)
qed

lemma length_regenerate: "length (regenerate t payload c store) = Suc (length store)"
  by (simp add: regenerate_def)

lemma entries_of_regenerate_other:
  "c \<noteq> c' \<Longrightarrow>
   map last_modified (entries_of c (regenerate t payload c' store))
     = map last_modified (entries_of c store)"
  unfolding entries_of_def regenerate_def new_entry_def by (induction store) auto

lemma entries_of_regenerate_same:
  "map last_modified (entries_of c (regenerate t payload c store))
     = map last_modified (entries_of c store) @ [t]"
  unfolding entries_of_def regenerate_def new_entry_def by (induction store) auto

lemma map_last_modified_regenerate:
  "map last_modified (regenerate t payload c store) = map last_modified store @ [t]"
  unfolding regenerate_def new_entry_def by (induction store) auto

lemma set_last_modified_regenerate:
  "last_modified ` set (regenerate t payload c store) = insert t (last_modified ` set store)"
proof -
  have "set (map last_modified (regenerate t payload c store))
          = set (map last_modified store @ [t])"
    by (simp only: map_last_modified_regenerate)
  then show ?thesis by simp
qed

lemma cache_inv_step: "cache_inv s \<Longrightarrow> cache_inv (cache_step ev s)"
proof (cases ev)
  case (Delay d)
  assume "cache_inv s"
  then show ?thesis by (auto simp: cache_inv_def Delay)
next
  case (Regenerate c' payload)
  assume inv: "cache_inv s"
  have "\<forall>t\<in>last_modified ` set (regenerate (clock s) payload c' (cache_store s)). t \<le> clock s"
    unfolding set_last_modified_regenerate using inv by (auto simp: cache_inv_def)
  then have a: "\<forall>e\<in>set (regenerate (clock s) payload c' (cache_store s)).
                   last_modified e \<le> clock s"
    by blast
  have b: "sorted (map last_modified
                     (entries_of c (regenerate (clock s) payload c' (cache_store s))))" for c
  proof (cases "c = c'")
    case True
    have "\<forall>x\<in>set (map last_modified (entries_of c (cache_store s))). x \<le> clock s"
      using inv by (auto simp: cache_inv_def entries_of_def)
    then show ?thesis using inv
      by (simp add: True[symmetric] entries_of_regenerate_same sorted_append cache_inv_def)
  next
    case False
    then show ?thesis using inv by (simp add: entries_of_regenerate_other cache_inv_def)
  qed
  from a b show ?thesis by (simp add: cache_inv_def Regenerate)
qed

lemma cache_inv_run: "cache_inv s \<Longrightarrow> cache_inv (cache_run events s)"
  unfolding cache_run_def by (induction events arbitrary: s) (auto intro: cache_inv_step)

lemma cache_inv_initial: "cache_inv (initial_system t0)"
  by (simp add: cache_inv_def initial_system_def entries_of_def)

lemma never_regenerated:
  "\<forall>payload. Regenerate c payload \<notin> set events \<Longrightarrow>
   entries_of c (cache_store (cache_run events s)) = [] \<longleftrightarrow> entries_of c (cache_store s) = []"
  unfolding cache_run_def
proof (induction events arbitrary: s)
  case Nil
  then show ?case by simp
next
  case (Cons ev events)
  have "entries_of c (cache_store (cache_step ev s)) = [] \<longleftrightarrow> entries_of c (cache_store s) = []"
  proof (cases ev)
    case (Delay d)
    then show ?thesis by simp
  next
    case (Regenerate c' payload)
    with Cons.prems have "c \<noteq> c'" by auto
    from entries_of_regenerate_other[OF this, of "clock s" payload "cache_store s"]
    have "length (entries_of c (regenerate (clock s) payload c' (cache_store s)))
            = length (entries_of c (cache_store s))"
      by (metis length_map)
    then have "(entries_of c (regenerate (clock s) payload c' (cache_store s)) = [])
                 = (entries_of c (cache_store s) = [])"
      by (metis length_0_conv)
    then show ?thesis by (simp add: Regenerate)
  qed
  with Cons show ?case by simp
qed

lemma get_latest_no_entries: "entries_of c store = [] \<Longrightarrow> get_latest c store = None"
  by (auto simp: get_latest_def entries_of_def filter_empty_conv split: list.splits)

section \<open>Claims\<close>

text \<open>
  C1, as the specification states it, fails: for every free-text query, the view would
  split the query on whitespace and return exactly the packages on which every token
  matches the name, the owner's name or the latest description. On the query
  \<^verbatim>\<open>foo bar\<close> the code returns a package named \<^verbatim>\<open>foo\<close> on which \<^verbatim>\<open>bar\<close> matches
  nothing; on a query whose two words are separated by a tab it has one token, and drops
  a package named \<^verbatim>\<open>foobar\<close> on which both words match.
\<close>

theorem C1_counterexample:
  "filter_by_query (Some ''foo bar'') [example_package 1 ''foo''] = [example_package 1 ''foo''] \<and>
   spec_filter_by_query ''foo bar'' [example_package 1 ''foo''] = [] \<and>
   filter_by_query (Some (''foo'' @ [CHR 0x09] @ ''bar'')) [example_package 1 ''foobar''] = [] \<and>
   spec_filter_by_query (''foo'' @ [CHR 0x09] @ ''bar'') [example_package 1 ''foobar'']
     = [example_package 1 ''foobar'']"
  by code_simp

text \<open>
  C1, amended. The free-text filter cuts the query at its space characters, drops the
  empty pieces, and returns exactly the packages (each once) on which at least one token
  matches at least one of name, owner name and latest description, letter case ignored;
  a query with no token, or no query, filters nothing.
\<close>

theorem C1_filter_by_query_any_token:
  "filter_by_query None qs = qs \<and>
   filter_by_query (Some []) qs = qs \<and>
   (s \<noteq> [] \<longrightarrow>
      filter_by_query (Some s) qs =
        distinct_rows (filter (\<lambda>p. query_parts s = [] \<or>
                                   (\<exists>t\<in>set (query_parts s). token_matches t p)) qs))"
  by (simp add: filter_by_query_eq) (simp add: filter_by_query_def)

theorem C1_filter_by_query_any_token_witness:
  "''foo bar'' \<noteq> [] \<and> query_parts ''foo bar'' = [''foo'', ''bar''] \<and>
   filter_by_query (Some ''foo bar'')
       [example_package 1 ''foo'', example_package 2 ''quux'', example_package 3 ''Rebar''] =
     [example_package 1 ''foo'', example_package 3 ''Rebar'']"
proof -
  have parts: "query_parts ''foo bar'' = [''foo'', ''bar'']"
    by code_simp
  have "distinct_rows
          (filter (\<lambda>p. query_parts ''foo bar'' = [] \<or>
                       (\<exists>t\<in>set (query_parts ''foo bar''). token_matches t p))
             [example_package 1 ''foo'', example_package 2 ''quux'',
              example_package 3 ''Rebar''])
        = [example_package 1 ''foo'', example_package 3 ''Rebar'']"
    unfolding parts by code_simp
  with C1_filter_by_query_any_token
         [of "[example_package 1 ''foo'', example_package 2 ''quux'',
               example_package 3 ''Rebar'']" "''foo bar''"] parts
  show ?thesis by simp
qed

text \<open>
  C2. For every community, \<^verbatim>\<open>get_latest\<close> returns \<open>None\<close>, and the cached endpoint
  answers 503, as long as the community has never been regenerated. When there is an
  entry, a request whose If-Modified-Since, cut to whole seconds, is at least the
  entry's \<^verbatim>\<open>last_modified\<close>, cut to whole seconds, gets 304 and no body; any other
  request gets 200 with the entry's payload and, as headers, its content type, its
  content encoding and its \<^verbatim>\<open>last_modified\<close> as an HTTP date.
\<close>

theorem C2_conditional_retrieval:
  "((\<forall>payload. Regenerate community payload \<notin> set events) \<longrightarrow>
      get_latest community (cache_store (cache_run events (initial_system t0))) = None \<and>
      cached_endpoint http_date (cache_store (cache_run events (initial_system t0)))
          community if_modified_since
        = \<lparr> status = 503, body = [], headers = [] \<rparr>) \<and>
   (get_latest community store = Some entry \<longrightarrow>
      cached_endpoint http_date store community if_modified_since =
        (if \<exists>t. if_modified_since = Some t \<and>
                 whole_seconds (last_modified entry) \<le> whole_seconds t
         then \<lparr> status = 304, body = [], headers = [] \<rparr>
         else \<lparr> status = 200, body = content entry,
                headers = [(''Content-Type'', content_type entry),
                           (''Content-Encoding'', content_encoding entry),
                           (''Last-Modified'',
                              http_date (whole_seconds (last_modified entry)))] \<rparr>))"
proof -
  have "get_latest community (cache_store (cache_run events (initial_system t0))) = None"
    if "\<forall>payload. Regenerate community payload \<notin> set events"
    using never_regenerated[OF that, of "initial_system t0"]
    by (simp add: get_latest_no_entries initial_system_def entries_of_def)
  then show ?thesis
    by (auto simp: cached_endpoint_def full_response_def split: option.splits)
qed

theorem C2_conditional_retrieval_witness:
  "(\<forall>payload. Regenerate 1 payload \<notin> set [Delay 5, Regenerate 2 ''x'']) \<and>
   get_latest 1 (cache_store (cache_run [Delay 5, Regenerate 2 ''x''] (initial_system 0))) = None \<and>
   cached_endpoint str_nat (cache_store (cache_run [Delay 5, Regenerate 2 ''x''] (initial_system 0)))
       1 None
     = \<lparr> status = 503, body = [], headers = [] \<rparr> \<and>
   get_latest 1 (regenerate 5500000 ''payload'' 1 [])
     = Some (new_entry 5500000 ''payload'' 1 []) \<and>
   cached_endpoint str_nat (regenerate 5500000 ''payload'' 1 []) 1
       (Some 5000000)
     = \<lparr> status = 304, body = [], headers = [] \<rparr> \<and>
   cached_endpoint str_nat (regenerate 5500000 ''payload'' 1 []) 1
       (Some 4999999)
     = \<lparr> status = 200, body = ''payload'',
         headers = [(''Content-Type'', ''application/json''),
                    (''Content-Encoding'', ''gzip''),
                    (''Last-Modified'', ''5'')] \<rparr>"
proof -
  have never: "\<forall>payload. Regenerate 1 payload \<notin> set [Delay 5, Regenerate 2 ''x'']"
    by simp
  have latest: "get_latest 1 (regenerate 5500000 ''payload'' 1 [])
                  = Some (new_entry 5500000 ''payload'' 1 [])"
    by (rule get_latest_regenerate)
  have d: "str_nat 5 = ''5''"
    by code_simp
  have a: "whole_seconds 5500000 = 5"
          "whole_seconds 5000000 = 5"
          "whole_seconds 4999999 = 4"
    by (simp_all add: whole_seconds_def)
  from C2_conditional_retrieval
         [of 1 "[Delay 5, Regenerate 2 ''x'']" 0 str_nat None
             "regenerate 5500000 ''payload'' 1 []"
             "new_entry 5500000 ''payload'' 1 []"]
       C2_conditional_retrieval
         [of 1 "[]" 0 str_nat "Some 5000000"
             "regenerate 5500000 ''payload'' 1 []"
             "new_entry 5500000 ''payload'' 1 []"]
       C2_conditional_retrieval
         [of 1 "[]" 0 str_nat "Some 4999999"
             "regenerate 5500000 ''payload'' 1 []"
             "new_entry 5500000 ''payload'' 1 []"]
       never latest
  show ?thesis
    by (simp add: new_entry_def a d)
qed

text \<open>
  C3. For every valid request, the package list that the view returns is sorted:
  pinned packages first, deprecated packages last, then by the order key the caller
  selected (last-updated, most-downloaded, newest or top-rated, each descending), then
  by last-updated descending, then by identifier descending.
\<close>

theorem C3_results_sorted:
  assumes "list_view base_url db community_id request = (trace, Inr resp)"
      and "get_validated_query_params request = Inr params"
  shows "sorted_wrt (spec_listed_before (spec_order_key (ordering params))) (results resp)"
proof -
  from list_view_Inr[OF assms(1)] assms(2) obtain community queryset pg where
    f: "apply_filters (require_package_listing_approval community) (listing_sections db) params
         (get_community_package_queryset db community) = Inr queryset"
    and p: "paginator_page queryset (page params) = Some pg"
    and r: "results resp = object_list pg"
    by auto
  show ?thesis
    unfolding r by (rule paginator_page_sorted[OF p apply_filters_sorted[OF f]])
qed

theorem C3_results_sorted_witness:
  "list_view [] example_db ''riskofrain2'' example_request =
     ([CommunityQuery, CommunityQuery, CommunityQuery, PackageCountQuery, PackageQuery,
       ListingQuery, ListingQuery, ListingQuery, ListingQuery],
      Inr \<lparr> response_count = 4, response_previous = None, response_next = None,
            results = [(example_package 3 ''gamma'')\<lparr> is_pinned := True \<rparr>,
                       example_package 4 ''delta'',
                       example_package 1 ''alpha'',
                       (example_package 2 ''beta'')\<lparr> is_deprecated := True \<rparr>] \<rparr>) \<and>
   get_validated_query_params example_request = Inr example_params \<and>
   sorted_wrt (spec_listed_before (spec_order_key ''most-downloaded''))
     [(example_package 3 ''gamma'')\<lparr> is_pinned := True \<rparr>,
      example_package 4 ''delta'',
      example_package 1 ''alpha'',
      (example_package 2 ''beta'')\<lparr> is_deprecated := True \<rparr>]"
proof -
  have run: "list_view [] example_db ''riskofrain2'' example_request =
     ([CommunityQuery, CommunityQuery, CommunityQuery, PackageCountQuery, PackageQuery,
       ListingQuery, ListingQuery, ListingQuery, ListingQuery],
      Inr \<lparr> response_count = 4, response_previous = None, response_next = None,
            results = [(example_package 3 ''gamma'')\<lparr> is_pinned := True \<rparr>,
                       example_package 4 ''delta'',
                       example_package 1 ''alpha'',
                       (example_package 2 ''beta'')\<lparr> is_deprecated := True \<rparr>] \<rparr>)"
    by code_simp
  have valid: "get_validated_query_params example_request = Inr example_params"
    by code_simp
  have "ordering example_params = ''most-downloaded''"
    by (simp add: example_params_def)
  with C3_results_sorted[OF run valid] run valid show ?thesis
    by simp
qed

text \<open>
  C4. For every community, the \<^verbatim>\<open>last_modified\<close> timestamps of its cache entries never
  decrease from one regeneration to the next; and a second regeneration that comes at
  least one second after a first gives an entry with a strictly later
  \<^verbatim>\<open>last_modified\<close> (also in whole seconds) and another identity.
\<close>

theorem C4_last_modified_monotone:
  "sorted (map last_modified
             (entries_of community (cache_store (cache_run events (initial_system t0))))) \<and>
   (1000000 \<le> d \<longrightarrow>
      (\<exists>e1 e2.
         get_latest community
           (cache_store (cache_run (events @ [Regenerate community p1]) (initial_system t0)))
           = Some e1 \<and>
         get_latest community
           (cache_store (cache_run (events @ [Regenerate community p1, Delay d,
                                              Regenerate community p2]) (initial_system t0)))
           = Some e2 \<and>
         last_modified e1 < last_modified e2 \<and>
         whole_seconds (last_modified e1) < whole_seconds (last_modified e2) \<and>
         cache_id e1 \<noteq> cache_id e2))"
proof -
  have "cache_inv (cache_run events (initial_system t0))"
    by (rule cache_inv_run[OF cache_inv_initial])
  then have mono: "sorted (map last_modified
             (entries_of community (cache_store (cache_run events (initial_system t0)))))"
    by (simp add: cache_inv_def)
  define s where "s = cache_run events (initial_system t0)"
  have r1: "cache_run (events @ [Regenerate community p1]) (initial_system t0)
              = s\<lparr> cache_store := regenerate (clock s) p1 community (cache_store s) \<rparr>"
    by (simp add: cache_run_def s_def)
  have r2: "cache_run (events @ [Regenerate community p1, Delay d, Regenerate community p2])
              (initial_system t0)
              = s\<lparr> clock := clock s + d,
                   cache_store := regenerate (clock s + d) p2 community
                     (regenerate (clock s) p1 community (cache_store s)) \<rparr>"
    by (simp add: cache_run_def s_def)
  have "1000000 \<le> d \<Longrightarrow> clock s div 1000000 < (clock s + d) div 1000000"
    by linarith
  then show ?thesis
    using mono
    by (simp add: r1 r2 get_latest_regenerate new_entry_def whole_seconds_def length_regenerate)
qed

theorem C4_last_modified_monotone_witness:
  "(1000000 :: nat) \<le> 1000000 \<and>
   map last_modified
     (entries_of 1 (cache_store
        (cache_run [Regenerate 1 ''a'', Delay 7, Regenerate 2 ''b'', Regenerate 1 ''c'',
                    Delay 1000000, Regenerate 1 ''d''] (initial_system 1000))))
     = [1000, 1007, 1001007] \<and>
   sorted [1000, 1007, 1001007 :: nat] \<and>
   (\<exists>e1 e2.
      get_latest 1 (cache_store
        (cache_run ([Regenerate 1 ''a'', Delay 7, Regenerate 2 ''b''] @ [Regenerate 1 ''c''])
           (initial_system 1000))) = Some e1 \<and>
      get_latest 1 (cache_store
        (cache_run ([Regenerate 1 ''a'', Delay 7, Regenerate 2 ''b''] @
                    [Regenerate 1 ''c'', Delay 1000000, Regenerate 1 ''d''])
           (initial_system 1000))) = Some e2 \<and>
      last_modified e1 < last_modified e2 \<and>
      whole_seconds (last_modified e1) < whole_seconds (last_modified e2) \<and>
      cache_id e1 \<noteq> cache_id e2)"
proof -
  have run: "map last_modified
     (entries_of 1 (cache_store
        (cache_run [Regenerate 1 ''a'', Delay 7, Regenerate 2 ''b'', Regenerate 1 ''c'',
                    Delay 1000000, Regenerate 1 ''d''] (initial_system 1000))))
     = [1000, 1007, 1001007]"
    by (simp add: cache_run_def initial_system_def regenerate_def new_entry_def entries_of_def)
  from C4_last_modified_monotone
         [of 1 "[Regenerate 1 ''a'', Delay 7, Regenerate 2 ''b'', Regenerate 1 ''c'',
                 Delay 1000000, Regenerate 1 ''d'']" 1000 1000000]
       C4_last_modified_monotone
         [of 1 "[Regenerate 1 ''a'', Delay 7, Regenerate 2 ''b'']" 1000 1000000 "''c''" "''d''"]
       run
  show ?thesis by simp
qed

text \<open>
  C5. For every valid request, a page holds at most 20 results. A link to a sibling
  page is the base URL with the validated parameters, the page set to the sibling's
  number. For a request for page 2 of a result set of 3 pages, the previous and the
  next link are both there, with the page set to 1 and to 3. Every list parameter is
  sorted in the parameters the links are built from, so two requests that give the
  same list items in another order get the same response, links included.
\<close>

theorem C5_pagination_links:
  assumes "list_view base_url db community_id request = (trace, Inr resp)"
      and "get_validated_query_params request = Inr params"
  shows "length (results resp) \<le> 20 \<and>
         response_previous resp =
           (if 1 < page params
            then Some (base_url @ ''?'' @ urlencode (params\<lparr> page := page params - 1 \<rparr>))
            else None) \<and>
         response_next resp =
           (if page params < int (num_pages (response_count resp))
            then Some (base_url @ ''?'' @ urlencode (params\<lparr> page := page params + 1 \<rparr>))
            else None) \<and>
         (page params = 2 \<and> num_pages (response_count resp) = 3 \<longrightarrow>
            response_previous resp =
              Some (base_url @ ''?'' @ urlencode (params\<lparr> page := 1 \<rparr>)) \<and>
            response_next resp =
              Some (base_url @ ''?'' @ urlencode (params\<lparr> page := 3 \<rparr>)) \<and>
            (\<exists>pre post. urlencode (params\<lparr> page := 1 \<rparr>) = pre @ ''page=1'' @ post) \<and>
            (\<exists>pre post. urlencode (params\<lparr> page := 3 \<rparr>) = pre @ ''page=3'' @ post)) \<and>
         sorted (included_categories params) \<and> sorted (excluded_categories params) \<and>
         (\<forall>inc exc.
            mset inc = mset (raw_included_categories request) \<and>
            mset exc = mset (raw_excluded_categories request) \<longrightarrow>
            list_view base_url db community_id
              (request\<lparr> raw_included_categories := inc, raw_excluded_categories := exc \<rparr>)
            = (trace, Inr resp))"
proof -
  have len: "length (results resp) \<le> 20"
    using list_view_links(3)[OF assms] by (simp add: page_size_def)
  have s1: "str_int 1 = ''1''" and s3: "str_int 3 = ''3''"
    by code_simp+
  have u1: "\<exists>pre post. urlencode (params\<lparr> page := 1 \<rparr>) = pre @ ''page=1'' @ post"
    using urlencode_page[of "params\<lparr> page := 1 \<rparr>"] by (simp add: s1)
  have u3: "\<exists>pre post. urlencode (params\<lparr> page := 3 \<rparr>) = pre @ ''page=3'' @ post"
    using urlencode_page[of "params\<lparr> page := 3 \<rparr>"] by (simp add: s3)
  have links: "response_previous resp =
                 Some (base_url @ ''?'' @ urlencode (params\<lparr> page := 1 \<rparr>)) \<and>
               response_next resp =
                 Some (base_url @ ''?'' @ urlencode (params\<lparr> page := 3 \<rparr>))"
    if "page params = 2" "num_pages (response_count resp) = 3"
    using list_view_links(1,2)[OF assms] that by simp
  have perm: "list_view base_url db community_id
              (request\<lparr> raw_included_categories := inc, raw_excluded_categories := exc \<rparr>)
            = (trace, Inr resp)"
    if "mset inc = mset (raw_included_categories request)"
       "mset exc = mset (raw_excluded_categories request)" for inc exc
    using list_view_cong[OF validated_perm[OF that], of base_url db community_id] assms(1)
    by simp
  from len links u1 u3 validated_sorted[OF assms(2)] perm list_view_links(1,2)[OF assms]
  show ?thesis
    by blast
qed

theorem C5_pagination_links_witness:
  "\<not> isl (snd (list_view ''https://thunderstore.io/p/'' big_db ''riskofrain2'' page2_request)) \<and>
   get_validated_query_params page2_request = Inr page2_params \<and>
   page page2_params = 2 \<and>
   num_pages (response_count (projr (snd
      (list_view ''https://thunderstore.io/p/'' big_db ''riskofrain2'' page2_request)))) = 3 \<and>
   length (results (projr (snd
      (list_view ''https://thunderstore.io/p/'' big_db ''riskofrain2'' page2_request)))) \<le> 20 \<and>
   response_previous (projr (snd
      (list_view ''https://thunderstore.io/p/'' big_db ''riskofrain2'' page2_request))) =
     Some ''https://thunderstore.io/p/?deprecated=False&excluded_categories=7&excluded_categories=9&nsfw=False&ordering=last-updated&page=1&q=mod+team'' \<and>
   response_next (projr (snd
      (list_view ''https://thunderstore.io/p/'' big_db ''riskofrain2'' page2_request))) =
     Some ''https://thunderstore.io/p/?deprecated=False&excluded_categories=7&excluded_categories=9&nsfw=False&ordering=last-updated&page=3&q=mod+team'' \<and>
   list_view ''https://thunderstore.io/p/'' big_db ''riskofrain2''
     (page2_request\<lparr> raw_included_categories := [],
                      raw_excluded_categories := [Some 7, Some 9] \<rparr>)
   = list_view ''https://thunderstore.io/p/'' big_db ''riskofrain2'' page2_request"
proof -
  let ?v = "list_view ''https://thunderstore.io/p/'' big_db ''riskofrain2'' page2_request"
  have ok: "\<not> isl (snd ?v)"
    by code_simp
  have run: "?v = (fst ?v, Inr (projr (snd ?v)))"
    using ok by (rule Inr_projr)
  have valid: "get_validated_query_params page2_request = Inr page2_params"
    by code_simp
  have cnt: "response_count (projr (snd ?v)) = 45"
    by code_simp
  have np: "num_pages 45 = 3"
    by code_simp
  have pg: "page page2_params = 2"
    by (simp add: page2_params_def)
  have u1: "''https://thunderstore.io/p/'' @ ''?'' @ urlencode (page2_params\<lparr> page := 1 \<rparr>) =
     ''https://thunderstore.io/p/?deprecated=False&excluded_categories=7&excluded_categories=9&nsfw=False&ordering=last-updated&page=1&q=mod+team''"
    by code_simp
  have u3: "''https://thunderstore.io/p/'' @ ''?'' @ urlencode (page2_params\<lparr> page := 3 \<rparr>) =
     ''https://thunderstore.io/p/?deprecated=False&excluded_categories=7&excluded_categories=9&nsfw=False&ordering=last-updated&page=3&q=mod+team''"
    by code_simp
  have m: "mset [] = mset (raw_included_categories page2_request)"
          "mset [Some 7, Some 9] = mset (raw_excluded_categories page2_request)"
    by (simp_all add: page2_request_def default_request_def)
  from C5_pagination_links[OF run valid] have
    a: "length (results (projr (snd ?v))) \<le> 20"
    and b: "page page2_params = 2 \<and> num_pages (response_count (projr (snd ?v))) = 3 \<longrightarrow>
            response_previous (projr (snd ?v)) =
              Some (''https://thunderstore.io/p/'' @ ''?'' @ urlencode (page2_params\<lparr> page := 1 \<rparr>)) \<and>
            response_next (projr (snd ?v)) =
              Some (''https://thunderstore.io/p/'' @ ''?'' @ urlencode (page2_params\<lparr> page := 3 \<rparr>))"
    and c: "\<forall>inc exc.
            mset inc = mset (raw_included_categories page2_request) \<and>
            mset exc = mset (raw_excluded_categories page2_request) \<longrightarrow>
            list_view ''https://thunderstore.io/p/'' big_db ''riskofrain2''
              (page2_request\<lparr> raw_included_categories := inc, raw_excluded_categories := exc \<rparr>)
            = (fst ?v, Inr (projr (snd ?v)))"
    by blast+
  from b pg cnt np have links:
    "response_previous (projr (snd ?v)) =
       Some (''https://thunderstore.io/p/'' @ ''?'' @ urlencode (page2_params\<lparr> page := 1 \<rparr>))"
    "response_next (projr (snd ?v)) =
       Some (''https://thunderstore.io/p/'' @ ''?'' @ urlencode (page2_params\<lparr> page := 3 \<rparr>))"
    by simp_all
  from c m have same: "list_view ''https://thunderstore.io/p/'' big_db ''riskofrain2''
     (page2_request\<lparr> raw_included_categories := [],
                      raw_excluded_categories := [Some 7, Some 9] \<rparr>) = ?v"
    using run by metis
  show ?thesis
    using ok valid pg a same links cnt np unfolding u1 u3 by simp
qed



text \<open>
  C7, on the code: the claim keeps, in a community that requires approval, exactly the
  packages whose listing there is approved. The code does not look at the community of
  a listing. The package below is listed in the first example community, which
  requires approval, with the status rejected, and in the second with the status
  approved; the filter keeps it and the list of the first community shows it.
\<close>

theorem C7_review_status_of_other_community:
  "find (\<lambda>c. community_identifier c = ''riskofrain2'') (communities cross_listed_db) =
     Some \<lparr> community_identifier = ''riskofrain2'', community_key = 1,
            require_package_listing_approval = True \<rparr> \<and>
   map review_status
     (filter (\<lambda>l. community_pk l = 1) (community_listings cross_listed_package)) = [rejected] \<and>
   filter_by_review_status True [cross_listed_package] = [cross_listed_package] \<and>
   snd (list_view [] cross_listed_db ''riskofrain2'' default_request) =
     Inr \<lparr> response_count = 1, response_previous = None, response_next = None,
           results = [cross_listed_package] \<rparr>"
  by code_simp

text \<open>
  C8. A request that names a section which does not exist is not failed: the section
  restricts nothing, and the result is the one of the same request without a section.
\<close>

theorem C8_missing_section_no_restriction:
  assumes "secs u = None"
  shows "filter_by_section secs (Some u) qs = filter_by_section secs None qs \<and>
         apply_filters ra secs (params\<lparr> section_uuid := Some u \<rparr>) qs =
         apply_filters ra secs (params\<lparr> section_uuid := None \<rparr>) qs"
proof -
  have "filter_by_section secs (Some u) ys = filter_by_section secs None ys" for ys
    using filter_by_section_missing[of secs u ys] assms by (simp add: filter_by_section_def)
  then show ?thesis by (simp add: apply_filters_def)
qed

theorem C8_missing_section_no_restriction_witness:
  "example_sections unknown_section = None \<and>
   filter_by_section example_sections (Some unknown_section) (packages example_db)
     = packages example_db \<and>
   apply_filters False example_sections
       (default_params\<lparr> section_uuid := Some unknown_section \<rparr>) (packages example_db)
     = apply_filters False example_sections
       (default_params\<lparr> section_uuid := None \<rparr>) (packages example_db) \<and>
   apply_filters False example_sections
       (default_params\<lparr> section_uuid := None \<rparr>) (packages example_db)
     = Inr [(example_package 3 ''gamma'')\<lparr> is_pinned := True \<rparr>,
            example_package 1 ''alpha'', example_package 4 ''delta''] \<and>
   apply_filters False example_sections
       (default_params\<lparr> section_uuid := Some ''0c8a0a3e-5f0c-4d5e-9d0e-1f2a3b4c5d6e'' \<rparr>)
       (packages example_db)
     = Inr []"
proof -
  have missing: "example_sections unknown_section = None"
    by code_simp
  have none: "filter_by_section example_sections None (packages example_db) = packages example_db"
    by (simp add: filter_by_section_def)
  have run: "apply_filters False example_sections
       (default_params\<lparr> section_uuid := None \<rparr>) (packages example_db)
     = Inr [(example_package 3 ''gamma'')\<lparr> is_pinned := True \<rparr>,
            example_package 1 ''alpha'', example_package 4 ''delta'']"
    by code_simp
  have known: "apply_filters False example_sections
       (default_params\<lparr> section_uuid := Some ''0c8a0a3e-5f0c-4d5e-9d0e-1f2a3b4c5d6e'' \<rparr>)
       (packages example_db)
     = Inr []"
    by code_simp
  from C8_missing_section_no_restriction
         [of example_sections unknown_section "packages example_db" False default_params]
       missing none run known
  show ?thesis by simp
qed

text \<open>
  C9. A request whose ordering is not one of the four known keys, or whose parameters
  are malformed in another way (a category id that is not an integer, a page below 1),
  is rejected with a client error; no query on packages has run by then, and no
  results are returned.
\<close>

theorem C9_malformed_request_rejected:
  assumes "spec_malformed request"
  shows "\<exists>trace e. list_view base_url db community_id request = (trace, Inl e) \<and>
           is_client_error e \<and> set trace \<subseteq> {CommunityQuery}"
proof -
  from assms obtain names where
    v: "get_validated_query_params request = Inl (ValidationError names)"
    using malformed_validation by blast
  show ?thesis
  proof (cases "find (\<lambda>c. community_identifier c = community_id) (communities db)")
    case None
    then have "list_view base_url db community_id request = ([CommunityQuery], Inl Http404)"
      by (simp add: list_view_def get_queryset_def get_community_def and_then_def)
    then show ?thesis by (simp add: is_client_error_def)
  next
    case (Some c)
    then have "list_view base_url db community_id request =
        ([CommunityQuery, CommunityQuery, CommunityQuery], Inl (ValidationError names))"
      using v
      by (simp add: list_view_def filter_queryset_def get_queryset_def get_community_def
          and_then_def returns_def)
    then show ?thesis by (simp add: is_client_error_def)
  qed
qed

theorem C9_malformed_request_rejected_witness:
  "spec_malformed bogus_request \<and>
   spec_malformed (default_request\<lparr> raw_included_categories := [Some 1, None] \<rparr>) \<and>
   spec_malformed (default_request\<lparr> raw_page := Given 0 \<rparr>) \<and>
   list_view [] example_db ''riskofrain2'' bogus_request =
     ([CommunityQuery, CommunityQuery, CommunityQuery], Inl (ValidationError [''ordering''])) \<and>
   is_client_error (ValidationError [''ordering'']) \<and>
   (\<exists>trace e. list_view [] example_db ''riskofrain2''
                 (default_request\<lparr> raw_page := Given 0 \<rparr>) = (trace, Inl e) \<and>
               is_client_error e \<and> set trace \<subseteq> {CommunityQuery})"
proof -
  have bad: "spec_malformed bogus_request"
    by code_simp
  have bad_id: "spec_malformed (default_request\<lparr> raw_included_categories := [Some 1, None] \<rparr>)"
    by code_simp
  have bad_page: "spec_malformed (default_request\<lparr> raw_page := Given 0 \<rparr>)"
    by code_simp
  have run: "list_view [] example_db ''riskofrain2'' bogus_request =
     ([CommunityQuery, CommunityQuery, CommunityQuery], Inl (ValidationError [''ordering'']))"
    by code_simp
  from C9_malformed_request_rejected[OF bad, of "[]" example_db "''riskofrain2''"] run
  have "is_client_error (ValidationError [''ordering''])"
    by simp
  with bad bad_id bad_page run
       C9_malformed_request_rejected[OF bad_page, of "[]" example_db "''riskofrain2''"]
  show ?thesis by simp
qed

end
